theory Spec2Isabelle
  imports Main "HOL-Library.Word"
begin

unbundle bit_operations_syntax

section \<open>Data model of arena.h\<close>

text \<open>
  The header is modelled for an LP64 target: \<^verbatim>\<open>unsigned long\<close> and pointers are 64-bit
  words, \<^verbatim>\<open>int\<close> is a 32-bit word read in two's complement. Unsigned arithmetic wraps
  modulo \<open>2 ^ 64\<close>, exactly as \<open>+\<close> on \<open>64 word\<close> does. A \<^verbatim>\<open>const char *\<close> is a
  \<open>string option\<close>, \<open>None\<close> being the null pointer. The hooks \<^verbatim>\<open>ARENA_LOCK()\<close> and
  \<^verbatim>\<open>ARENA_UNLOCK()\<close> expand to nothing by default and are not modelled.
\<close>

type_synonym ulong = "64 word"
type_synonym cint = "32 word"
type_synonym ptr = "64 word"
type_synonym cstring = "string option"

text \<open>\<^verbatim>\<open>typedef struct arena_t { data; capacity; pos; error; }\<close>\<close>

record arena_t =
  data :: ptr
  capacity :: ulong
  pos :: ulong
  error :: cstring

text \<open>
  The program state: the \<^verbatim>\<open>arena_t\<close> objects that exist, by address (an address that
  holds no object maps to \<open>None\<close>), and the file-scope variable
  \<^verbatim>\<open>_arena_error_global\<close>. Under \<^verbatim>\<open>ARENA_NOALLOC\<close> the state also has the flag
  \<^verbatim>\<open>_arena_static_used\<close>, and the object \<^verbatim>\<open>_arena_static\<close> lives in \<open>mem\<close> at its
  link-time address.
\<close>

record state =
  mem :: "ptr \<Rightarrow> arena_t option"
  arena_error_global :: cstring

record noalloc_state = state +
  arena_static_used :: cint

text \<open>
  A function that dereferences its \<^verbatim>\<open>arena_t *\<close> argument returns \<open>None\<close> when the
  pointer is neither null nor the address of an object: the C program has no defined
  behaviour there.
\<close>

section \<open>The operations\<close>

text \<open>\<^verbatim>\<open>arena_error\<close> (arena.h, lines 184-189).\<close>

definition arena_error :: "ptr \<Rightarrow> 'a state_scheme \<Rightarrow> cstring option" where
  "arena_error arena s =
     (if arena \<noteq> 0 then
        (case mem s arena of
           None \<Rightarrow> None
         | Some a \<Rightarrow> Some (if error a \<noteq> None then error a else Some ''no error''))
      else Some (arena_error_global s))"

text \<open>
  The initial state under \<^verbatim>\<open>ARENA_NOALLOC\<close> (lines 200-202): \<open>st\<close> is the address of
  \<^verbatim>\<open>_arena_static\<close>, \<open>sd\<close> the address of \<^verbatim>\<open>_arena_static_data\<close> and \<open>sz\<close> the value
  of the macro \<^verbatim>\<open>ARENA_SIZE\<close>, which the including program defines.
\<close>

definition noalloc_initial :: "ptr \<Rightarrow> ptr \<Rightarrow> ulong \<Rightarrow> noalloc_state" where
  "noalloc_initial st sd sz =
     \<lparr>mem = [st \<mapsto> \<lparr>data = sd, capacity = sz, pos = 0, error = None\<rparr>],
      arena_error_global = Some ''no error'',
      arena_static_used = 0\<rparr>"

text \<open>The initial state of the default (dynamic) build: no arena exists yet.\<close>

definition initial :: state where
  "initial = \<lparr>mem = Map.empty, arena_error_global = Some ''no error''\<rparr>"

text \<open>
  \<^verbatim>\<open>arena_init(void)\<close> under \<^verbatim>\<open>ARENA_NOALLOC\<close> (lines 210-227); \<open>st\<close> is the address of
  \<^verbatim>\<open>_arena_static\<close>.
\<close>

definition arena_init_noalloc :: "ptr \<Rightarrow> noalloc_state \<Rightarrow> (ptr \<times> noalloc_state) option" where
  "arena_init_noalloc st s =
     (case mem s st of
        None \<Rightarrow> None
      | Some a \<Rightarrow>
          if arena_static_used s \<noteq> 0 then
            Some (0, s\<lparr>mem := (mem s)(st \<mapsto> a\<lparr>error := Some ''static arena already used''\<rparr>)\<rparr>)
          else
            Some (st, s\<lparr>mem := (mem s)(st \<mapsto> a\<lparr>pos := 0, error := Some ''no error''\<rparr>),
                        arena_static_used := 1\<rparr>))"

text \<open>
  \<^verbatim>\<open>arena_init(int size)\<close> of the dynamic build (lines 229-256). The allocator behind
  \<^verbatim>\<open>ARENA_MALLOC\<close> is supplied by the including program, so the values it returns are
  parameters: \<open>m_arena\<close> for \<^verbatim>\<open>ARENA_MALLOC(sizeof(arena_t))\<close> and \<open>m_data\<close> for
  \<^verbatim>\<open>ARENA_MALLOC(size)\<close> (asked only when the first call succeeded). On the second
  failure path the struct is given back with \<^verbatim>\<open>ARENA_FREE\<close>. The assignment
  \<^verbatim>\<open>arena->capacity = size\<close> converts the \<^verbatim>\<open>int\<close> to \<^verbatim>\<open>unsigned long\<close>.
\<close>

definition arena_init :: "ptr \<Rightarrow> ptr \<Rightarrow> cint \<Rightarrow> state \<Rightarrow> ptr \<times> state" where
  "arena_init m_arena m_data size' s =
     (if m_arena = 0 then
        (0, s\<lparr>arena_error_global := Some ''out of memory (arena struct)''\<rparr>)
      else if m_data = 0 then
        (0, s\<lparr>mem := (mem s)(m_arena := None),
              arena_error_global := Some ''out of memory (arena data)''\<rparr>)
      else
        (m_arena, s\<lparr>mem := (mem s)(m_arena \<mapsto>
           \<lparr>data = m_data, capacity = scast size', pos = 0, error = Some ''no error''\<rparr>)\<rparr>))"

text \<open>\<^verbatim>\<open>arena_alloc\<close> (lines 264-293).\<close>

definition arena_alloc :: "ptr \<Rightarrow> cint \<Rightarrow> 'a state_scheme \<Rightarrow> (ptr \<times> 'a state_scheme) option" where
  "arena_alloc arena size' s =
     (if arena = 0 then Some (0, s\<lparr>arena_error_global := Some ''null arena''\<rparr>)
      else case mem s arena of
        None \<Rightarrow> None
      | Some a \<Rightarrow>
          if sint size' \<le> 0 then
            Some (0, s\<lparr>mem := (mem s)(arena \<mapsto> a\<lparr>error := Some ''invalid allocation size''\<rparr>)\<rparr>)
          else if pos a + scast size' > capacity a then
            Some (0, s\<lparr>mem := (mem s)(arena \<mapsto> a\<lparr>error := Some ''arena overflow''\<rparr>)\<rparr>)
          else
            Some (data a + pos a,
                  s\<lparr>mem := (mem s)(arena \<mapsto> a\<lparr>pos := pos a + scast size',
                                                 error := Some ''no error''\<rparr>)\<rparr>))"

text \<open>
  \<^verbatim>\<open>arena_alloc_aligned\<close> (lines 300-339). In \<^verbatim>\<open>current_addr % alignment\<close> and in
  \<^verbatim>\<open>alignment - ...\<close> the \<^verbatim>\<open>int\<close> operand is converted to \<^verbatim>\<open>unsigned long\<close>; the test
  \<^verbatim>\<open>alignment & (alignment - 1)\<close> is on \<^verbatim>\<open>int\<close>.
\<close>

definition arena_alloc_aligned ::
  "ptr \<Rightarrow> cint \<Rightarrow> cint \<Rightarrow> 'a state_scheme \<Rightarrow> (ptr \<times> 'a state_scheme) option" where
  "arena_alloc_aligned arena size' alignment s =
     (if arena = 0 then Some (0, s\<lparr>arena_error_global := Some ''null arena''\<rparr>)
      else case mem s arena of
        None \<Rightarrow> None
      | Some a \<Rightarrow>
          if sint size' \<le> 0 then
            Some (0, s\<lparr>mem := (mem s)(arena \<mapsto> a\<lparr>error := Some ''invalid allocation size''\<rparr>)\<rparr>)
          else if sint alignment \<le> 0 \<or> alignment AND (alignment - 1) \<noteq> 0 then
            Some (0, s\<lparr>mem := (mem s)(arena \<mapsto>
                          a\<lparr>error := Some ''alignment must be power of two''\<rparr>)\<rparr>)
          else
            let current_addr = data a + pos a;
                offset = (scast alignment - (current_addr mod scast alignment)) mod scast alignment;
                new_pos = pos a + offset
            in if new_pos + scast size' > capacity a then
                 Some (0, s\<lparr>mem := (mem s)(arena \<mapsto> a\<lparr>error := Some ''arena overflow (aligned)''\<rparr>)\<rparr>)
               else
                 Some (data a + new_pos,
                       s\<lparr>mem := (mem s)(arena \<mapsto> a\<lparr>pos := new_pos + scast size',
                                                      error := Some ''no error''\<rparr>)\<rparr>))"

text \<open>
  The value of the local variable \<^verbatim>\<open>offset\<close> of \<^verbatim>\<open>arena_alloc_aligned\<close> (line 323), as a
  function of \<^verbatim>\<open>current_addr\<close> and \<^verbatim>\<open>alignment\<close>.
\<close>

definition aligned_offset :: "ulong \<Rightarrow> cint \<Rightarrow> ulong" where
  "aligned_offset current_addr alignment =
     (scast alignment - (current_addr mod scast alignment)) mod scast alignment"

text \<open>\<^verbatim>\<open>arena_reset\<close> (lines 345-356).\<close>

definition arena_reset :: "ptr \<Rightarrow> 'a state_scheme \<Rightarrow> 'a state_scheme option" where
  "arena_reset arena s =
     (if arena = 0 then Some s
      else case mem s arena of
        None \<Rightarrow> None
      | Some a \<Rightarrow> Some (s\<lparr>mem := (mem s)(arena \<mapsto> a\<lparr>pos := 0, error := Some ''no error''\<rparr>)\<rparr>))"

text \<open>
  \<^verbatim>\<open>arena_destroy\<close> of the dynamic build (lines 363-375): both \<^verbatim>\<open>ARENA_FREE\<close> calls end
  the lifetime of the object.
\<close>

definition arena_destroy :: "ptr \<Rightarrow> state \<Rightarrow> state option" where
  "arena_destroy arena s =
     (if arena = 0 then Some s
      else case mem s arena of
        None \<Rightarrow> None
      | Some a \<Rightarrow> Some (s\<lparr>mem := (mem s)(arena := None),
                           arena_error_global := Some ''no error''\<rparr>))"

text \<open>\<^verbatim>\<open>arena_used\<close> and \<^verbatim>\<open>arena_capacity\<close> (lines 382-398).\<close>

definition arena_used :: "ptr \<Rightarrow> 'a state_scheme \<Rightarrow> ulong option" where
  "arena_used arena s = (if arena = 0 then Some 0 else map_option pos (mem s arena))"

definition arena_capacity :: "ptr \<Rightarrow> 'a state_scheme \<Rightarrow> ulong option" where
  "arena_capacity arena s = (if arena = 0 then Some 0 else map_option capacity (mem s arena))"

section \<open>Client programs\<close>

text \<open>
  A client is a sequence of calls. The calls that both builds have are in \<open>call\<close>;
  \<open>exec\<close> gives the state after one of them and drops the value it returns. The
  default build adds \<^verbatim>\<open>arena_init(size)\<close> (with the two values the allocator returns)
  and \<^verbatim>\<open>arena_destroy\<close>; the \<^verbatim>\<open>ARENA_NOALLOC\<close> build adds \<^verbatim>\<open>arena_init(void)\<close> only.
  A run stops with \<open>None\<close> at a call that has no defined behaviour.
\<close>

datatype call =
    Alloc ptr cint
  | Alloc_aligned ptr cint cint
  | Reset ptr
  | Error ptr
  | Used ptr
  | Capacity ptr

fun exec :: "call \<Rightarrow> 'a state_scheme \<Rightarrow> 'a state_scheme option" where
  "exec (Alloc arena n) s = map_option snd (arena_alloc arena n s)"
| "exec (Alloc_aligned arena n alignment) s = map_option snd (arena_alloc_aligned arena n alignment s)"
| "exec (Reset arena) s = arena_reset arena s"
| "exec (Error arena) s = map_option (\<lambda>_. s) (arena_error arena s)"
| "exec (Used arena) s = map_option (\<lambda>_. s) (arena_used arena s)"
| "exec (Capacity arena) s = map_option (\<lambda>_. s) (arena_capacity arena s)"

datatype dyn_call = Init ptr ptr cint | Destroy ptr | Call call

fun exec_dyn :: "dyn_call \<Rightarrow> state \<Rightarrow> state option" where
  "exec_dyn (Init m_arena m_data n) s = Some (snd (arena_init m_arena m_data n s))"
| "exec_dyn (Destroy arena) s = arena_destroy arena s"
| "exec_dyn (Call c) s = exec c s"

fun run_dyn :: "dyn_call list \<Rightarrow> state \<Rightarrow> state option" where
  "run_dyn [] s = Some s"
| "run_dyn (c # cs) s = (case exec_dyn c s of None \<Rightarrow> None | Some s' \<Rightarrow> run_dyn cs s')"

datatype noalloc_call = Init_noalloc | Call_noalloc call

fun exec_noalloc :: "ptr \<Rightarrow> noalloc_call \<Rightarrow> noalloc_state \<Rightarrow> noalloc_state option" where
  "exec_noalloc st Init_noalloc s = map_option snd (arena_init_noalloc st s)"
| "exec_noalloc st (Call_noalloc c) s = exec c s"

fun run_noalloc :: "ptr \<Rightarrow> noalloc_call list \<Rightarrow> noalloc_state \<Rightarrow> noalloc_state option" where
  "run_noalloc st [] s = Some s"
| "run_noalloc st (c # cs) s =
     (case exec_noalloc st c s of None \<Rightarrow> None | Some s' \<Rightarrow> run_noalloc st cs s')"

section \<open>Live arenas\<close>

text \<open>
  The capacity of an arena a program has is never near the top of the \<^verbatim>\<open>unsigned long\<close>
  range. In the default build it is the \<^verbatim>\<open>int\<close> argument of \<^verbatim>\<open>arena_init\<close> (lines 229,
  250), below \<open>2 ^ 31\<close> unless the argument is negative, and a negative argument asks the
  allocator for \<open>2 ^ 64 - 2 ^ 31\<close> bytes or more. Under \<^verbatim>\<open>ARENA_NOALLOC\<close> it is the size of
  the static array \<^verbatim>\<open>_arena_static_data\<close> (lines 200-201). A live arena has its cursor
  within its capacity and a capacity of at most \<open>2 ^ 64 - 2 ^ 32\<close>.
\<close>

definition live_arena :: "arena_t \<Rightarrow> bool" where
  "live_arena a \<longleftrightarrow> pos a \<le> capacity a \<and> unat (capacity a) \<le> 2 ^ 64 - 2 ^ 32"

text \<open>
  What the allocator behind \<^verbatim>\<open>ARENA_MALLOC\<close> is expected to do at a call of
  \<^verbatim>\<open>arena_init\<close>: the struct it returns is not an \<^verbatim>\<open>arena_t\<close> that is still allocated,
  and it refuses the request that a negative \<open>size\<close> turns into. \<open>run_ok\<close> says that
  every call of a client meets this in the state where it is made.
\<close>

fun allocator_ok :: "dyn_call \<Rightarrow> state \<Rightarrow> bool" where
  "allocator_ok (Init m_arena m_data n) s \<longleftrightarrow>
     (m_arena \<noteq> 0 \<longrightarrow> mem s m_arena = None) \<and> (sint n < 0 \<longrightarrow> m_arena = 0 \<or> m_data = 0)"
| "allocator_ok (Destroy arena) s \<longleftrightarrow> True"
| "allocator_ok (Call c) s \<longleftrightarrow> True"

fun run_ok :: "dyn_call list \<Rightarrow> state \<Rightarrow> bool" where
  "run_ok [] s \<longleftrightarrow> True"
| "run_ok (c # cs) s \<longleftrightarrow>
     allocator_ok c s \<and> (case exec_dyn c s of None \<Rightarrow> True | Some s' \<Rightarrow> run_ok cs s')"

section \<open>Example states\<close>

text \<open>
  The arena of the scenario "capacity = 100": the struct at address 4096, 100 bytes of
  storage at address 8192, the cursor at \<open>p\<close>.
\<close>

definition example_arena :: "ulong \<Rightarrow> arena_t" where
  "example_arena p = \<lparr>data = 8192, capacity = 100, pos = p, error = Some ''no error''\<rparr>"

definition example_state :: "ulong \<Rightarrow> state" where
  "example_state p = \<lparr>mem = [4096 \<mapsto> example_arena p], arena_error_global = Some ''no error''\<rparr>"

section \<open>Arithmetic of the conversions and of the padding\<close>

text \<open>A non-negative \<^verbatim>\<open>int\<close> keeps its value when it is converted to \<^verbatim>\<open>unsigned long\<close>.\<close>

lemma unat_scast_int:
  fixes n :: cint
  assumes "0 \<le> sint n"
  shows "unat (scast n :: ulong) = nat (sint n)"
proof -
  have b: "sint n < 2 ^ 31" using sint_lt [of n] by simp
  have "unat (scast n :: ulong) = unat (word_of_int (sint n) :: ulong)"
    by (rule arg_cong [OF scast_eq])
  also have "\<dots> = nat (sint n mod 2 ^ 64)"
    by (simp only: unat_eq_nat_uint uint_word_of_int, simp)
  also have "\<dots> = nat (sint n)" using assms b by simp
  finally show ?thesis .
qed

lemma int_size_bound:
  fixes n :: cint
  shows "nat (sint n) < 2 ^ 31"
  using sint_lt [of n] by simp

lemma align_up_eq:
  fixes A c :: nat
  assumes "0 < A" "c mod A \<noteq> 0"
  shows "c + (A - c mod A) mod A = (c div A + 1) * A"
proof -
  define q r where "q = c div A" and "r = c mod A"
  have c: "c = q * A + r" by (simp add: q_def r_def)
  have r: "r < A" "0 < r" using assms by (simp_all add: r_def)
  have "(A - r) mod A = A - r" using r by simp
  then have "c + (A - r) mod A = q * A + r + (A - r)" using c by simp
  also have "\<dots> = q * A + A" using r by simp
  also have "\<dots> = (q + 1) * A" by simp
  finally show ?thesis by (simp add: q_def r_def)
qed

lemma align_up_dvd:
  fixes A c :: nat
  assumes "0 < A"
  shows "A dvd c + (A - c mod A) mod A"
proof (cases "c mod A = 0")
  case True
  then show ?thesis by (simp add: dvd_eq_mod_eq_0)
next
  case False
  then show ?thesis using align_up_eq [OF assms False] by simp
qed

lemma align_up_least:
  fixes A c m :: nat
  assumes "0 < A" "c \<le> m" "A dvd m"
  shows "c + (A - c mod A) mod A \<le> m"
proof (cases "c mod A = 0")
  case True
  then show ?thesis using assms by simp
next
  case False
  from assms(3) obtain j where "m = A * j" ..
  then have j: "m = j * A" by simp
  have "c div A * A < c" using False assms(1)
    by (metis div_mult_mod_eq less_add_same_cancel1 neq0_conv)
  moreover have "c \<le> j * A" using assms(2) j by simp
  ultimately have "c div A * A < j * A" by (rule less_le_trans)
  then have "c div A < j" by simp
  then have "c div A + 1 \<le> j" by simp
  then have "(c div A + 1) * A \<le> j * A" by (rule mult_le_mono1)
  then show ?thesis using align_up_eq [OF assms(1) False] j by simp
qed

lemma sint_pos_unat:
  fixes n :: cint
  assumes "0 < sint n"
  shows "unat n = nat (sint n)"
proof -
  have "sint n < 2 ^ 32" using sint_lt [of n] by simp
  then have "take_bit 32 (sint n) = sint n"
    using assms by (simp add: take_bit_int_eq_self)
  then have "uint n = sint n" using uint_sint [of n] by simp
  then show ?thesis by (simp add: unat_eq_nat_uint)
qed


lemma and_pred_nat:
  fixes n :: nat
  assumes "0 < n" "n AND (n - 1) = 0"
  shows "\<exists>k. n = 2 ^ k"
  using assms
proof (induction n rule: less_induct)
  case (less n)
  show ?case
  proof (cases "even n")
    case True
    then obtain m where m: "n = 2 * m" by (auto elim: evenE)
    with less.prems have m0: "0 < m" by simp
    have "n - 1 = 2 * (m - 1) + 1" using m m0 by simp
    then have "n AND (n - 1) = 2 * (m AND (m - 1))"
      using m by (simp add: and_nat_rec [of "2 * m"])
    with less.prems have "m AND (m - 1) = 0" by simp
    moreover have "m < n" using m m0 by simp
    ultimately obtain k where "m = 2 ^ k" using less.IH m0 by blast
    then have "n = 2 ^ Suc k" using m by simp
    then show ?thesis by blast
  next
    case False
    then obtain m where m: "n = 2 * m + 1" by (auto elim: oddE)
    have "Suc (2 * m) AND 2 * m = 2 * m"
      by (subst and_nat_rec) simp
    then have "n AND (n - 1) = 2 * m"
      using m by simp
    with less.prems have "m = 0" by simp
    then have "n = 2 ^ 0" using m by simp
    then show ?thesis by blast
  qed
qed

lemma alignment_power_of_two:
  fixes alignment :: cint
  assumes "0 < sint alignment" "alignment AND (alignment - 1) = 0"
  shows "\<exists>k<31. nat (sint alignment) = 2 ^ k"
proof -
  have u: "unat alignment = nat (sint alignment)" by (rule sint_pos_unat [OF assms(1)])
  then have pos: "0 < unat alignment" using assms(1) by simp
  then have nz: "alignment \<noteq> 0" by (auto simp: unat_eq_0)
  have "unat (alignment AND (alignment - 1)) = unat alignment AND unat (alignment - 1)"
    by (rule unsigned_and_eq)
  also have "\<dots> = unat alignment AND (unat alignment - 1)"
    by (simp only: unat_minus_one [OF nz])
  finally have "unat alignment AND (unat alignment - 1) = 0" using assms(2) by simp
  then obtain k where k: "unat alignment = 2 ^ k" using and_pred_nat [OF pos] by blast
  have e: "nat (sint alignment) = 2 ^ k" using k u by (simp only:)
  have "(2::nat) ^ k < 2 ^ 31" using int_size_bound [of alignment] by (simp only: e)
  then have "k < 31" by (simp only: power_strict_increasing_iff) 
  then show ?thesis using e by blast
qed

lemma unat_padding:
  fixes alignment :: cint and addr :: ulong
  assumes "0 < sint alignment"
  shows "unat ((scast alignment - addr mod scast alignment) mod scast alignment :: ulong)
         = (nat (sint alignment) - unat addr mod nat (sint alignment)) mod nat (sint alignment)"
proof -
  let ?A = "scast alignment :: ulong"
  have A: "unat ?A = nat (sint alignment)" using assms by (simp add: unat_scast_int)
  have m: "unat (addr mod ?A) = unat addr mod nat (sint alignment)"
    by (simp only: unat_mod A)
  have "unat addr mod nat (sint alignment) < nat (sint alignment)" using assms by simp
  then have "addr mod ?A \<le> ?A" by (simp only: word_le_nat_alt A m)
  then have "unat (?A - addr mod ?A) = nat (sint alignment) - unat addr mod nat (sint alignment)"
    by (simp only: unat_sub A m)
  then show ?thesis by (simp only: unat_mod A)
qed

section \<open>Unaligned allocation\<close>

lemma unat_add_size:
  fixes x :: ulong and n :: cint
  assumes "0 < sint n"
  shows "unat (x + scast n) = (unat x + nat (sint n)) mod 2 ^ 64"
  using assms by (simp add: unat_word_ariths unat_scast_int)

lemma arena_alloc_live:
  fixes s :: "'a state_scheme"
  assumes "arena \<noteq> 0" and "mem s arena = Some a" and "0 < sint n"
  shows "arena_alloc arena n s =
           (if unat (capacity a) < (unat (pos a) + nat (sint n)) mod 2 ^ 64
            then Some (0, s\<lparr>mem := (mem s)(arena \<mapsto> a\<lparr>error := Some ''arena overflow''\<rparr>)\<rparr>)
            else Some (data a + pos a,
                       s\<lparr>mem := (mem s)(arena \<mapsto> a\<lparr>pos := pos a + scast n,
                                                      error := Some ''no error''\<rparr>)\<rparr>))"
  using assms by (simp add: arena_alloc_def word_less_nat_alt unat_add_size)

text \<open>In a live arena the sum that \<^verbatim>\<open>arena_alloc\<close> computes does not wrap.\<close>

lemma live_sum_fits:
  fixes n :: cint
  assumes "live_arena a"
  shows "unat (pos a) + nat (sint n) < 2 ^ 64"
proof -
  have "unat (pos a) \<le> unat (capacity a)" using assms by (simp add: live_arena_def word_le_nat_alt)
  moreover have "unat (capacity a) \<le> 2 ^ 64 - 2 ^ 32" using assms by (simp add: live_arena_def)
  moreover have "nat (sint n) < 2 ^ 31" by (rule int_size_bound)
  ultimately show ?thesis by simp
qed

text \<open>
  C1. For a live arena and a size \<open>n > 0\<close>: when \<open>capacity - pos \<ge> n\<close>, \<^verbatim>\<open>arena_alloc\<close>
  returns the address \<open>data + pos\<close> (which is not null when the storage region starts at a
  non-null address and ends inside the address space), advances \<open>pos\<close> by exactly \<open>n\<close>
  and clears the error; when \<open>capacity - pos < n\<close> it returns null and leaves \<open>pos\<close>
  unchanged, with "arena overflow" recorded on the arena.
\<close>

theorem arena_alloc_fits_or_fails:
  fixes s :: "'a state_scheme"
  assumes "arena \<noteq> 0" and "mem s arena = Some a" and "live_arena a" and "0 < sint n"
  shows "(nat (sint n) \<le> unat (capacity a) - unat (pos a) \<longrightarrow>
            arena_alloc arena n s =
              Some (data a + pos a,
                    s\<lparr>mem := (mem s)(arena \<mapsto> a\<lparr>pos := pos a + scast n,
                                                   error := Some ''no error''\<rparr>)\<rparr>)
            \<and> unat (pos a + scast n) = unat (pos a) + nat (sint n)
            \<and> (data a \<noteq> 0 \<and> unat (data a) + unat (capacity a) < 2 ^ 64 \<longrightarrow> data a + pos a \<noteq> 0))
       \<and> (unat (capacity a) - unat (pos a) < nat (sint n) \<longrightarrow>
            arena_alloc arena n s =
              Some (0, s\<lparr>mem := (mem s)(arena \<mapsto> a\<lparr>error := Some ''arena overflow''\<rparr>)\<rparr>))"
proof (intro conjI impI)
  have le: "unat (pos a) \<le> unat (capacity a)"
    using assms(3) by (simp add: live_arena_def word_le_nat_alt)
  have small: "unat (pos a) + nat (sint n) < 2 ^ 64" by (rule live_sum_fits [OF assms(3)])
  {
    assume fit: "nat (sint n) \<le> unat (capacity a) - unat (pos a)"
    then have sum: "unat (pos a) + nat (sint n) \<le> unat (capacity a)" using le by simp
    show "arena_alloc arena n s =
              Some (data a + pos a,
                    s\<lparr>mem := (mem s)(arena \<mapsto> a\<lparr>pos := pos a + scast n,
                                                   error := Some ''no error''\<rparr>)\<rparr>)"
      using sum small by (simp add: arena_alloc_live [OF assms(1,2,4)])
    show "unat (pos a + scast n) = unat (pos a) + nat (sint n)"
      using small by (simp add: unat_add_size [OF assms(4)])
    {
      assume st: "data a \<noteq> 0 \<and> unat (data a) + unat (capacity a) < 2 ^ 64"
      then have "unat (data a) + unat (pos a) < 2 ^ 64" using le by simp
      then have "unat (data a + pos a) = unat (data a) + unat (pos a)"
        by (simp add: unat_add_lem [THEN iffD1])
      moreover have "0 < unat (data a)" using st by (simp add: unat_gt_0)
      ultimately have "0 < unat (data a + pos a)" by simp
      then show "data a + pos a \<noteq> 0" by (simp add: unat_gt_0)
    }
  }
  {
    assume "unat (capacity a) - unat (pos a) < nat (sint n)"
    then have "unat (capacity a) < unat (pos a) + nat (sint n)" using le by auto
    then show "arena_alloc arena n s =
              Some (0, s\<lparr>mem := (mem s)(arena \<mapsto> a\<lparr>error := Some ''arena overflow''\<rparr>)\<rparr>)"
      using small by (simp add: arena_alloc_live [OF assms(1,2,4)])
  }
qed

theorem arena_alloc_fits_or_fails_witness:
  "live_arena (example_arena 0) \<and> live_arena (example_arena 60)
   \<and> arena_alloc 4096 60 (example_state 0) = Some (8192, example_state 60)
   \<and> arena_alloc 4096 50 (example_state 60)
     = Some (0, \<lparr>mem = [4096 \<mapsto> (example_arena 60)\<lparr>error := Some ''arena overflow''\<rparr>],
                 arena_error_global = Some ''no error''\<rparr>)"
proof -
  have l: "live_arena (example_arena 0)" "live_arena (example_arena 60)"
    by (simp_all add: live_arena_def example_arena_def)
  have m: "mem (example_state 0) 4096 = Some (example_arena 0)"
    "mem (example_state 60) 4096 = Some (example_arena 60)"
    by (simp_all add: example_state_def)
  show ?thesis
    using l arena_alloc_fits_or_fails [OF _ m(1) l(1), of 60]
      arena_alloc_fits_or_fails [OF _ m(2) l(2), of 50]
    by (simp add: example_state_def example_arena_def)
qed

text \<open>
  C3. For a live arena and a size \<open>n > 0\<close> the sum \<^verbatim>\<open>arena->pos + (unsigned long)size\<close> is
  the exact sum: \<open>pos\<close> is at most the capacity and \<open>size\<close> is an \<^verbatim>\<open>int\<close> widened to
  \<^verbatim>\<open>unsigned long\<close>, so the addition cannot wrap. The capacity test is therefore the
  mathematical one: the call fails with "arena overflow", readable through
  \<^verbatim>\<open>arena_error\<close>, exactly when the exact sum exceeds the capacity, and an allocation is
  admitted only when the exact sum is within it.
\<close>

theorem arena_alloc_overflow_check:
  fixes s :: "'a state_scheme"
  assumes "arena \<noteq> 0" and "mem s arena = Some a" and "live_arena a" and "0 < sint n"
  shows "unat (pos a + scast n) = unat (pos a) + nat (sint n)
       \<and> arena_alloc arena n s =
           (if unat (capacity a) < unat (pos a) + nat (sint n)
            then Some (0, s\<lparr>mem := (mem s)(arena \<mapsto> a\<lparr>error := Some ''arena overflow''\<rparr>)\<rparr>)
            else Some (data a + pos a,
                       s\<lparr>mem := (mem s)(arena \<mapsto> a\<lparr>pos := pos a + scast n,
                                                      error := Some ''no error''\<rparr>)\<rparr>))
       \<and> (unat (capacity a) < unat (pos a) + nat (sint n) \<longrightarrow>
            arena_error arena (s\<lparr>mem := (mem s)(arena \<mapsto> a\<lparr>error := Some ''arena overflow''\<rparr>)\<rparr>)
              = Some (Some ''arena overflow''))"
proof -
  have small: "unat (pos a) + nat (sint n) < 2 ^ 64" by (rule live_sum_fits [OF assms(3)])
  have "unat (pos a + scast n) = unat (pos a) + nat (sint n)"
    using small by (simp add: unat_add_size [OF assms(4)])
  moreover have "arena_alloc arena n s =
           (if unat (capacity a) < unat (pos a) + nat (sint n)
            then Some (0, s\<lparr>mem := (mem s)(arena \<mapsto> a\<lparr>error := Some ''arena overflow''\<rparr>)\<rparr>)
            else Some (data a + pos a,
                       s\<lparr>mem := (mem s)(arena \<mapsto> a\<lparr>pos := pos a + scast n,
                                                      error := Some ''no error''\<rparr>)\<rparr>))"
    using small by (simp add: arena_alloc_live [OF assms(1,2,4)])
  moreover have "arena_error arena (s\<lparr>mem := (mem s)(arena \<mapsto> a\<lparr>error := Some ''arena overflow''\<rparr>)\<rparr>)
              = Some (Some ''arena overflow'')"
    using assms(1) by (simp add: arena_error_def)
  ultimately show ?thesis by simp
qed

theorem arena_alloc_overflow_check_witness:
  "live_arena \<lparr>data = 8192, capacity = 2147483647, pos = 2147483647, error = None\<rparr>
   \<and> arena_alloc 4096 2147483647
     \<lparr>mem = [4096 \<mapsto> \<lparr>data = 8192, capacity = 2147483647, pos = 2147483647, error = None\<rparr>],
      arena_error_global = None\<rparr>
   = Some (0,
     \<lparr>mem = [4096 \<mapsto> \<lparr>data = 8192, capacity = 2147483647, pos = 2147483647,
                       error = Some ''arena overflow''\<rparr>],
      arena_error_global = None\<rparr>)
   \<and> arena_error 4096
     \<lparr>mem = [4096 \<mapsto> \<lparr>data = 8192, capacity = 2147483647, pos = 2147483647,
                       error = Some ''arena overflow''\<rparr>],
      arena_error_global = None\<rparr> = Some (Some ''arena overflow'')"
proof -
  have l: "live_arena \<lparr>data = 8192, capacity = 2147483647, pos = 2147483647, error = None\<rparr>"
    by (simp add: live_arena_def)
  show ?thesis
    using l arena_alloc_overflow_check [of 4096
      "\<lparr>mem = [4096 \<mapsto> \<lparr>data = 8192, capacity = 2147483647, pos = 2147483647, error = None\<rparr>],
        arena_error_global = None\<rparr>"
      "\<lparr>data = 8192, capacity = 2147483647, pos = 2147483647, error = None\<rparr>" 2147483647]
    by simp
qed

section \<open>Reset\<close>

text \<open>
  C8. \<^verbatim>\<open>arena_reset\<close> of a null pointer returns with the state unchanged; for an arena
  object, in any state, it sets \<open>pos\<close> to 0 and the error to "no error" (as
  \<^verbatim>\<open>arena_used\<close> and \<^verbatim>\<open>arena_error\<close> then report); and a reset followed by a reset gives
  the state that one reset gives.
\<close>

theorem arena_reset_idempotent:
  fixes s :: "'a state_scheme"
  shows "arena_reset 0 s = Some s
     \<and> (arena \<noteq> 0 \<and> mem s arena = Some a \<longrightarrow>
          arena_reset arena s =
            Some (s\<lparr>mem := (mem s)(arena \<mapsto> a\<lparr>pos := 0, error := Some ''no error''\<rparr>)\<rparr>)
          \<and> arena_used arena (s\<lparr>mem := (mem s)(arena \<mapsto> a\<lparr>pos := 0, error := Some ''no error''\<rparr>)\<rparr>)
              = Some 0
          \<and> arena_error arena (s\<lparr>mem := (mem s)(arena \<mapsto> a\<lparr>pos := 0, error := Some ''no error''\<rparr>)\<rparr>)
              = Some (Some ''no error''))
     \<and> Option.bind (arena_reset arena s) (arena_reset arena) = arena_reset arena s"
  by (auto simp: arena_reset_def arena_used_def arena_error_def split: option.splits)

theorem arena_reset_idempotent_witness:
  "arena_reset 4096
     \<lparr>mem = [4096 \<mapsto> \<lparr>data = 8192, capacity = 100, pos = 60, error = Some ''arena overflow''\<rparr>],
      arena_error_global = Some ''null arena''\<rparr>
   = Some \<lparr>mem = [4096 \<mapsto> \<lparr>data = 8192, capacity = 100, pos = 0, error = Some ''no error''\<rparr>],
           arena_error_global = Some ''null arena''\<rparr>"
  using arena_reset_idempotent [of
      "\<lparr>mem = [4096 \<mapsto> \<lparr>data = 8192, capacity = 100, pos = 60, error = Some ''arena overflow''\<rparr>],
        arena_error_global = Some ''null arena''\<rparr>"
      4096 "\<lparr>data = 8192, capacity = 100, pos = 60, error = Some ''arena overflow''\<rparr>"]
  by simp

section \<open>Construction\<close>

text \<open>
  C4, as amended. \<^verbatim>\<open>arena_init(size)\<close> makes no test of \<open>size\<close>: it returns null exactly
  when one of the two allocator calls returned null. When both succeed it returns the new
  object, whose capacity is \<open>size\<close> converted to \<^verbatim>\<open>unsigned long\<close> (\<open>size mod 2 ^ 64\<close>),
  with \<open>pos = 0\<close> and the error cleared, whatever the sign of \<open>size\<close>.
\<close>

theorem arena_init_allocator_decides:
  "(fst (arena_init m_arena m_data n s) = 0 \<longleftrightarrow> m_arena = 0 \<or> m_data = 0)
   \<and> (m_arena \<noteq> 0 \<and> m_data \<noteq> 0 \<longrightarrow>
        arena_init m_arena m_data n s =
          (m_arena, s\<lparr>mem := (mem s)(m_arena \<mapsto>
             \<lparr>data = m_data, capacity = scast n, pos = 0, error = Some ''no error''\<rparr>)\<rparr>)
        \<and> uint (scast n :: ulong) = sint n mod 2 ^ 64)"
proof -
  have "uint (scast n :: ulong) = uint (word_of_int (sint n) :: ulong)"
    by (rule arg_cong [OF scast_eq])
  also have "\<dots> = sint n mod 2 ^ 64"
    by (simp only: uint_word_of_int, simp)
  finally have u: "uint (scast n :: ulong) = sint n mod 2 ^ 64" .
  have a: "fst (arena_init m_arena m_data n s) = 0 \<longleftrightarrow> m_arena = 0 \<or> m_data = 0"
    by (simp add: arena_init_def)
  have b: "m_arena \<noteq> 0 \<and> m_data \<noteq> 0 \<longrightarrow>
        arena_init m_arena m_data n s =
          (m_arena, s\<lparr>mem := (mem s)(m_arena \<mapsto>
             \<lparr>data = m_data, capacity = scast n, pos = 0, error = Some ''no error''\<rparr>)\<rparr>)"
    by (simp add: arena_init_def)
  show ?thesis using a b u by blast
qed

theorem arena_init_allocator_decides_witness:
  "arena_init 4096 8192 4096 initial =
     (4096, \<lparr>mem = [4096 \<mapsto> \<lparr>data = 8192, capacity = 4096, pos = 0, error = Some ''no error''\<rparr>],
             arena_error_global = Some ''no error''\<rparr>)"
  using arena_init_allocator_decides [of 4096 8192 4096 initial]
  by (simp add: initial_def)

text \<open>
  C4 as stated fails: when the allocator returns non-null pointers, \<^verbatim>\<open>arena_init(0)\<close> gives
  a live arena of capacity 0 and \<^verbatim>\<open>arena_init(-1)\<close> one of capacity \<open>2 ^ 64 - 1\<close>.
\<close>

theorem arena_init_nonpositive_counterexample:
  "sint (0 :: cint) \<le> 0
   \<and> arena_init 4096 8192 0 initial =
     (4096, \<lparr>mem = [4096 \<mapsto> \<lparr>data = 8192, capacity = 0, pos = 0, error = Some ''no error''\<rparr>],
             arena_error_global = Some ''no error''\<rparr>)
   \<and> sint (- 1 :: cint) \<le> 0
   \<and> arena_init 4096 8192 (- 1) initial =
     (4096, \<lparr>mem = [4096 \<mapsto> \<lparr>data = 8192, capacity = 18446744073709551615, pos = 0,
                              error = Some ''no error''\<rparr>],
             arena_error_global = Some ''no error''\<rparr>)"
proof -
  have w: "(18446744073709551615 :: 64 word) = - 1" by simp
  show ?thesis by (simp add: arena_init_def initial_def w)
qed

section \<open>The single claim of the static arena\<close>

text \<open>
  No call of the \<^verbatim>\<open>ARENA_NOALLOC\<close> build writes 0 to \<^verbatim>\<open>_arena_static_used\<close>, and none
  creates or removes an \<^verbatim>\<open>arena_t\<close> object.
\<close>

lemma exec_arena_static_used:
  fixes s :: noalloc_state
  assumes "exec c s = Some s'"
  shows "arena_static_used s' = arena_static_used s"
  using assms
  by (cases c)
     (auto simp: arena_alloc_def arena_alloc_aligned_def arena_reset_def Let_def
           split: if_splits option.splits)

lemma exec_dom:
  fixes s :: "'a state_scheme"
  assumes "exec c s = Some s'"
  shows "dom (mem s') = dom (mem s)"
  using assms
  by (cases c)
     (auto simp: arena_alloc_def arena_alloc_aligned_def arena_reset_def Let_def
           split: if_splits option.splits)

lemma exec_noalloc_claimed:
  assumes "exec_noalloc st c s = Some s'" and "arena_static_used s \<noteq> 0"
  shows "arena_static_used s' \<noteq> 0"
proof (cases c)
  case Init_noalloc
  then show ?thesis using assms
    by (auto simp: arena_init_noalloc_def split: option.splits if_splits)
next
  case (Call_noalloc c')
  then show ?thesis using assms exec_arena_static_used [of c' s s'] by simp
qed

lemma exec_noalloc_dom:
  assumes "exec_noalloc st c s = Some s'"
  shows "dom (mem s') = dom (mem s)"
proof (cases c)
  case Init_noalloc
  then show ?thesis using assms
    by (auto simp: arena_init_noalloc_def split: option.splits if_splits)
next
  case (Call_noalloc c')
  then show ?thesis using assms exec_dom [of c' s s'] by simp
qed

lemma run_noalloc_claimed:
  assumes "run_noalloc st cs s = Some s'" and "arena_static_used s \<noteq> 0"
  shows "arena_static_used s' \<noteq> 0 \<and> dom (mem s') = dom (mem s)"
  using assms
proof (induction cs arbitrary: s)
  case Nil
  then show ?case by simp
next
  case (Cons c cs)
  from Cons.prems(1) obtain t where t: "exec_noalloc st c s = Some t" and r: "run_noalloc st cs t = Some s'"
    by (auto split: option.splits)
  have "arena_static_used t \<noteq> 0" using exec_noalloc_claimed [OF t Cons.prems(2)] .
  then have "arena_static_used s' \<noteq> 0 \<and> dom (mem s') = dom (mem t)" using Cons.IH [OF r] by simp
  then show ?case using exec_noalloc_dom [OF t] by simp
qed

text \<open>
  C5, as amended. Under \<^verbatim>\<open>ARENA_NOALLOC\<close>, \<^verbatim>\<open>arena_init()\<close> succeeds when the guard
  \<^verbatim>\<open>_arena_static_used\<close> is 0: it returns the address of \<^verbatim>\<open>_arena_static\<close>, with \<open>pos\<close>
  0 and the error cleared, and sets the guard. A second \<^verbatim>\<open>arena_init()\<close> then returns
  null and records "static arena already used" on the shared object, where
  \<^verbatim>\<open>arena_error\<close> reads it through the first pointer; so does every \<^verbatim>\<open>arena_init()\<close>
  issued while the guard is not 0. The header has no release operation.
\<close>

theorem arena_init_noalloc_single_claim:
  assumes "mem s st = Some a"
  shows "(arena_static_used s = 0 \<longrightarrow>
            (let s1 = s\<lparr>mem := (mem s)(st \<mapsto> a\<lparr>pos := 0, error := Some ''no error''\<rparr>),
                        arena_static_used := 1\<rparr>;
                 s2 = s1\<lparr>mem := (mem s1)(st \<mapsto> a\<lparr>pos := 0,
                                                     error := Some ''static arena already used''\<rparr>)\<rparr>
             in arena_init_noalloc st s = Some (st, s1)
                \<and> arena_init_noalloc st s1 = Some (0, s2)
                \<and> (st \<noteq> 0 \<longrightarrow> arena_error st s2 = Some (Some ''static arena already used''))))
       \<and> (arena_static_used s \<noteq> 0 \<longrightarrow>
            arena_init_noalloc st s =
              Some (0, s\<lparr>mem := (mem s)(st \<mapsto> a\<lparr>error := Some ''static arena already used''\<rparr>)\<rparr>))"
  using assms by (simp add: arena_init_noalloc_def arena_error_def Let_def)

theorem arena_init_noalloc_single_claim_witness:
  "arena_init_noalloc 4096 (noalloc_initial 4096 8192 1024) =
     Some (4096,
       \<lparr>mem = [4096 \<mapsto> \<lparr>data = 8192, capacity = 1024, pos = 0, error = Some ''no error''\<rparr>],
        arena_error_global = Some ''no error'', arena_static_used = 1\<rparr>)
   \<and> arena_init_noalloc 4096
       \<lparr>mem = [4096 \<mapsto> \<lparr>data = 8192, capacity = 1024, pos = 0, error = Some ''no error''\<rparr>],
        arena_error_global = Some ''no error'', arena_static_used = 1\<rparr> =
     Some (0,
       \<lparr>mem = [4096 \<mapsto> \<lparr>data = 8192, capacity = 1024, pos = 0,
                         error = Some ''static arena already used''\<rparr>],
        arena_error_global = Some ''no error'', arena_static_used = 1\<rparr>)"
  using arena_init_noalloc_single_claim [of "noalloc_initial 4096 8192 1024" 4096
      "\<lparr>data = 8192, capacity = 1024, pos = 0, error = None\<rparr>"]
  by (simp add: noalloc_initial_def Let_def)

text \<open>
  The second half of C5 fails: after the first \<^verbatim>\<open>arena_init()\<close> of a 1024-byte static
  arena, no call of the header leads to a state whose guard is 0 again.
\<close>

theorem arena_static_release_counterexample:
  "arena_init_noalloc 4096 (noalloc_initial 4096 8192 1024) =
     Some (4096,
       \<lparr>mem = [4096 \<mapsto> \<lparr>data = 8192, capacity = 1024, pos = 0, error = Some ''no error''\<rparr>],
        arena_error_global = Some ''no error'', arena_static_used = 1\<rparr>)
   \<and> \<not> (\<exists>c s'. exec_noalloc 4096 c
       \<lparr>mem = [4096 \<mapsto> \<lparr>data = 8192, capacity = 1024, pos = 0, error = Some ''no error''\<rparr>],
        arena_error_global = Some ''no error'', arena_static_used = 1\<rparr> = Some s'
       \<and> arena_static_used s' = 0)"
proof -
  have "arena_static_used s' \<noteq> 0"
    if "exec_noalloc 4096 c
       \<lparr>mem = [4096 \<mapsto> \<lparr>data = 8192, capacity = 1024, pos = 0, error = Some ''no error''\<rparr>],
        arena_error_global = Some ''no error'', arena_static_used = 1\<rparr> = Some s'" for c s'
    using exec_noalloc_claimed [OF that] by simp
  then show ?thesis by (auto simp: arena_init_noalloc_def noalloc_initial_def)
qed

text \<open>
  C9. Under \<^verbatim>\<open>ARENA_NOALLOC\<close>, after a call of \<^verbatim>\<open>arena_init()\<close> (in particular after the
  one that succeeds) and any sequence of calls of the header, the guard is still set and
  a further \<^verbatim>\<open>arena_init()\<close> returns null with "static arena already used".
\<close>

theorem arena_static_claim_permanent:
  assumes "arena_init_noalloc st s = Some (r, s1)" and "run_noalloc st cs s1 = Some s2"
  shows "arena_static_used s2 \<noteq> 0
       \<and> (\<exists>a. mem s2 st = Some a
            \<and> arena_init_noalloc st s2 =
                Some (0, s2\<lparr>mem := (mem s2)(st \<mapsto> a\<lparr>error := Some ''static arena already used''\<rparr>)\<rparr>))"
proof -
  have u1: "arena_static_used s1 \<noteq> 0" and d1: "st \<in> dom (mem s1)"
    using assms(1) by (auto simp: arena_init_noalloc_def split: option.splits if_splits)
  have "arena_static_used s2 \<noteq> 0 \<and> dom (mem s2) = dom (mem s1)"
    using run_noalloc_claimed [OF assms(2) u1] .
  then have u2: "arena_static_used s2 \<noteq> 0" and "st \<in> dom (mem s2)" using d1 by simp_all
  then obtain a where a: "mem s2 st = Some a" by blast
  show ?thesis using u2 a by (simp add: arena_init_noalloc_def)
qed

theorem arena_static_claim_permanent_witness:
  "arena_init_noalloc 4096 (noalloc_initial 4096 8192 1024)
   = Some (4096,
     \<lparr>mem = [4096 \<mapsto> \<lparr>data = 8192, capacity = 1024, pos = 0, error = Some ''no error''\<rparr>],
      arena_error_global = Some ''no error'', arena_static_used = 1\<rparr>)
   \<and> run_noalloc 4096 [Call_noalloc (Alloc 4096 128), Call_noalloc (Reset 4096)]
     \<lparr>mem = [4096 \<mapsto> \<lparr>data = 8192, capacity = 1024, pos = 0, error = Some ''no error''\<rparr>],
      arena_error_global = Some ''no error'', arena_static_used = 1\<rparr>
   = Some
     \<lparr>mem = [4096 \<mapsto> \<lparr>data = 8192, capacity = 1024, pos = 0, error = Some ''no error''\<rparr>],
      arena_error_global = Some ''no error'', arena_static_used = 1\<rparr>
   \<and> arena_init_noalloc 4096
     \<lparr>mem = [4096 \<mapsto> \<lparr>data = 8192, capacity = 1024, pos = 0, error = Some ''no error''\<rparr>],
      arena_error_global = Some ''no error'', arena_static_used = 1\<rparr>
   = Some (0,
     \<lparr>mem = [4096 \<mapsto> \<lparr>data = 8192, capacity = 1024, pos = 0,
                       error = Some ''static arena already used''\<rparr>],
      arena_error_global = Some ''no error'', arena_static_used = 1\<rparr>)"
proof -
  have h1: "arena_init_noalloc 4096 (noalloc_initial 4096 8192 1024)
   = Some (4096,
     \<lparr>mem = [4096 \<mapsto> \<lparr>data = 8192, capacity = 1024, pos = 0, error = Some ''no error''\<rparr>],
      arena_error_global = Some ''no error'', arena_static_used = 1\<rparr>)"
    by (simp add: arena_init_noalloc_def noalloc_initial_def)
  have h2: "run_noalloc 4096 [Call_noalloc (Alloc 4096 128), Call_noalloc (Reset 4096)]
     \<lparr>mem = [4096 \<mapsto> \<lparr>data = 8192, capacity = 1024, pos = 0, error = Some ''no error''\<rparr>],
      arena_error_global = Some ''no error'', arena_static_used = 1\<rparr>
   = Some
     \<lparr>mem = [4096 \<mapsto> \<lparr>data = 8192, capacity = 1024, pos = 0, error = Some ''no error''\<rparr>],
      arena_error_global = Some ''no error'', arena_static_used = 1\<rparr>"
    by (simp add: arena_alloc_def arena_reset_def)
  show ?thesis
    using h1 h2 arena_static_claim_permanent [OF h1 h2] by auto
qed

section \<open>Error reporting\<close>

text \<open>\<^verbatim>\<open>_arena_error_global\<close> is only ever assigned string literals.\<close>

lemma exec_global:
  fixes s :: "'a state_scheme"
  assumes "exec c s = Some s'"
  shows "arena_error_global s' = arena_error_global s \<or> arena_error_global s' = Some ''null arena''"
  using assms
  by (cases c)
     (auto simp: arena_alloc_def arena_alloc_aligned_def arena_reset_def Let_def
           split: if_splits option.splits)

lemma exec_dyn_global:
  assumes "exec_dyn c s = Some s'" and "arena_error_global s \<noteq> None"
  shows "arena_error_global s' \<noteq> None"
proof (cases c)
  case (Init m_arena m_data n)
  then show ?thesis using assms by (auto simp: arena_init_def split: if_splits)
next
  case (Destroy arena)
  then show ?thesis using assms
    by (auto simp: arena_destroy_def split: if_splits option.splits)
next
  case (Call c')
  then show ?thesis using assms exec_global [of c' s s'] by auto
qed

lemma run_dyn_global:
  assumes "run_dyn cs s = Some s'" and "arena_error_global s \<noteq> None"
  shows "arena_error_global s' \<noteq> None"
  using assms
proof (induction cs arbitrary: s)
  case Nil
  then show ?case by simp
next
  case (Cons c cs)
  from Cons.prems(1) obtain t where t: "exec_dyn c s = Some t" and r: "run_dyn cs t = Some s'"
    by (auto split: option.splits)
  show ?case using Cons.IH [OF r exec_dyn_global [OF t Cons.prems(2)]] .
qed

lemma exec_noalloc_global:
  assumes "exec_noalloc st c s = Some s'" and "arena_error_global s \<noteq> None"
  shows "arena_error_global s' \<noteq> None"
proof (cases c)
  case Init_noalloc
  then show ?thesis using assms
    by (auto simp: arena_init_noalloc_def split: option.splits if_splits)
next
  case (Call_noalloc c')
  then show ?thesis using assms exec_global [of c' s s'] by auto
qed

lemma run_noalloc_global:
  assumes "run_noalloc st cs s = Some s'" and "arena_error_global s \<noteq> None"
  shows "arena_error_global s' \<noteq> None"
  using assms
proof (induction cs arbitrary: s)
  case Nil
  then show ?case by simp
next
  case (Cons c cs)
  from Cons.prems(1) obtain t where t: "exec_noalloc st c s = Some t"
    and r: "run_noalloc st cs t = Some s'"
    by (auto split: option.splits)
  show ?case using Cons.IH [OF r exec_noalloc_global [OF t Cons.prems(2)]] .
qed

text \<open>
  C10. \<^verbatim>\<open>arena_error\<close> never returns a null string. For a null argument it returns
  \<^verbatim>\<open>_arena_error_global\<close>, which is not null in any state that a client of either
  build reaches from the initial state; for an arena object it returns the recorded
  message, or "no error" when the \<open>error\<close> field is null.
\<close>

theorem arena_error_never_null:
  fixes t :: "'a state_scheme"
  shows "(run_dyn cs initial = Some s \<longrightarrow> (\<exists>msg. arena_error 0 s = Some (Some msg)))
       \<and> (run_noalloc st cs' (noalloc_initial st sd sz) = Some s' \<longrightarrow>
            (\<exists>msg. arena_error 0 s' = Some (Some msg)))
       \<and> (arena \<noteq> 0 \<and> mem t arena = Some a \<longrightarrow>
            arena_error arena t =
              Some (Some (case error a of None \<Rightarrow> ''no error'' | Some msg \<Rightarrow> msg)))"
proof (intro conjI impI)
  assume "run_dyn cs initial = Some s"
  then have "arena_error_global s \<noteq> None"
    by (rule run_dyn_global) (simp add: initial_def)
  then show "\<exists>msg. arena_error 0 s = Some (Some msg)"
    by (auto simp: arena_error_def)
next
  assume "run_noalloc st cs' (noalloc_initial st sd sz) = Some s'"
  then have "arena_error_global s' \<noteq> None"
    by (rule run_noalloc_global) (simp add: noalloc_initial_def)
  then show "\<exists>msg. arena_error 0 s' = Some (Some msg)"
    by (auto simp: arena_error_def)
next
  assume "arena \<noteq> 0 \<and> mem t arena = Some a"
  then show "arena_error arena t =
      Some (Some (case error a of None \<Rightarrow> ''no error'' | Some msg \<Rightarrow> msg))"
    by (auto simp: arena_error_def split: option.splits)
qed

theorem arena_error_never_null_witness:
  "run_dyn [Init 4096 0 16] initial
     = Some \<lparr>mem = Map.empty, arena_error_global = Some ''out of memory (arena data)''\<rparr>
   \<and> (\<exists>msg. arena_error 0
       \<lparr>mem = Map.empty, arena_error_global = Some ''out of memory (arena data)''\<rparr>
     = Some (Some msg))
   \<and> run_noalloc 4096 [Init_noalloc, Call_noalloc (Alloc 0 8)] (noalloc_initial 4096 8192 1024)
     = Some \<lparr>mem = [4096 \<mapsto> \<lparr>data = 8192, capacity = 1024, pos = 0,
                               error = Some ''no error''\<rparr>],
             arena_error_global = Some ''null arena'', arena_static_used = 1\<rparr>
   \<and> (\<exists>msg. arena_error 0
       \<lparr>mem = [4096 \<mapsto> \<lparr>data = 8192, capacity = 1024, pos = 0, error = Some ''no error''\<rparr>],
        arena_error_global = Some ''null arena'', arena_static_used = 1\<rparr>
     = Some (Some msg))
   \<and> arena_error 4096 (noalloc_initial 4096 8192 1024) = Some (Some ''no error'')"
proof -
  have h1: "run_dyn [Init 4096 0 16] initial
     = Some \<lparr>mem = Map.empty, arena_error_global = Some ''out of memory (arena data)''\<rparr>"
    by (simp add: arena_init_def initial_def)
  have h2: "run_noalloc 4096 [Init_noalloc, Call_noalloc (Alloc 0 8)]
       (noalloc_initial 4096 8192 1024)
     = Some \<lparr>mem = [4096 \<mapsto> \<lparr>data = 8192, capacity = 1024, pos = 0,
                               error = Some ''no error''\<rparr>],
             arena_error_global = Some ''null arena'', arena_static_used = 1\<rparr>"
    by (simp add: arena_init_noalloc_def arena_alloc_def noalloc_initial_def)
  have h3: "mem (noalloc_initial 4096 8192 1024) 4096
     = Some \<lparr>data = 8192, capacity = 1024, pos = 0, error = None\<rparr>"
    by (simp add: noalloc_initial_def)
  show ?thesis
    using h1 h2 h3 arena_error_never_null [of "[Init 4096 0 16]"
      "\<lparr>mem = Map.empty, arena_error_global = Some ''out of memory (arena data)''\<rparr>"
      4096 "[Init_noalloc, Call_noalloc (Alloc 0 8)]" 8192 1024
      "\<lparr>mem = [4096 \<mapsto> \<lparr>data = 8192, capacity = 1024, pos = 0, error = Some ''no error''\<rparr>],
        arena_error_global = Some ''null arena'', arena_static_used = 1\<rparr>"
      4096 "noalloc_initial 4096 8192 1024"
      "\<lparr>data = 8192, capacity = 1024, pos = 0, error = None\<rparr>"]
    by simp
qed

section \<open>Aligned allocation\<close>

lemma arena_alloc_aligned_live:
  fixes s :: "'a state_scheme"
  assumes "arena \<noteq> 0" and "mem s arena = Some a" and "0 < sint n"
    and "0 < sint alignment" and "alignment AND (alignment - 1) = 0"
  shows "arena_alloc_aligned arena n alignment s =
           (if capacity a < pos a + aligned_offset (data a + pos a) alignment + scast n
            then Some (0, s\<lparr>mem := (mem s)(arena \<mapsto>
                               a\<lparr>error := Some ''arena overflow (aligned)''\<rparr>)\<rparr>)
            else Some (data a + (pos a + aligned_offset (data a + pos a) alignment),
                       s\<lparr>mem := (mem s)(arena \<mapsto>
                            a\<lparr>pos := pos a + aligned_offset (data a + pos a) alignment + scast n,
                              error := Some ''no error''\<rparr>)\<rparr>))"
  using assms by (simp add: arena_alloc_aligned_def aligned_offset_def Let_def)

lemma unat_aligned_offset:
  fixes alignment :: cint and addr :: ulong
  assumes "0 < sint alignment"
  shows "unat (aligned_offset addr alignment)
         = (nat (sint alignment) - unat addr mod nat (sint alignment)) mod nat (sint alignment)"
  unfolding aligned_offset_def by (rule unat_padding [OF assms])

lemma aligned_address:
  fixes alignment :: cint and addr p :: ulong
  assumes al: "0 < sint alignment" "alignment AND (alignment - 1) = 0"
    and p: "p = addr + aligned_offset addr alignment"
  shows "nat (sint alignment) dvd unat p"
    and "p \<noteq> 0 \<Longrightarrow> unat p = unat addr + unat (aligned_offset addr alignment)"
proof -
  let ?A = "nat (sint alignment)"
  let ?pad = "(?A - unat addr mod ?A) mod ?A"
  obtain k where k: "k < 31" "?A = 2 ^ k" using alignment_power_of_two [OF al] by blast
  have A0: "0 < ?A" using al(1) by simp
  have pad: "unat (aligned_offset addr alignment) = ?pad" by (rule unat_aligned_offset [OF al(1)])
  have up: "unat p = (unat addr + ?pad) mod 2 ^ 64"
    by (simp add: p unat_word_ariths pad)
  have d: "?A dvd unat addr + ?pad" by (rule align_up_dvd [OF A0])
  have "(2::nat) ^ k dvd 2 ^ 64" using k(1) by (intro le_imp_power_dvd) simp
  then have d64: "?A dvd 2 ^ 64" by (simp only: k(2))
  show "?A dvd unat p" unfolding up using d d64 by (rule dvd_mod)
  have "unat addr < 2 ^ 64" using unsigned_less [of addr, where 'a = nat] by simp
  then have "unat addr \<le> 2 ^ 64" by simp
  then have le: "unat addr + ?pad \<le> 2 ^ 64" by (rule align_up_least [OF A0 _ d64])
  show "unat p = unat addr + unat (aligned_offset addr alignment)" if "p \<noteq> 0"
  proof -
    have "unat addr + ?pad \<noteq> 2 ^ 64"
    proof
      assume "unat addr + ?pad = 2 ^ 64"
      then have "unat p = 0" using up by simp
      then show False using that by (simp add: unat_eq_0)
    qed
    then have "unat addr + ?pad < 2 ^ 64" using le by simp
    then show ?thesis using up pad by simp
  qed
qed

text \<open>
  C2. For an arena object at any base address, a size \<open>n > 0\<close> and an alignment that
  passes the power-of-two test: when \<^verbatim>\<open>arena_alloc_aligned\<close> succeeds (returns a non-null
  address \<open>p\<close>), \<open>p\<close> is a multiple of the alignment, \<open>p\<close> is at or after \<open>data + pos\<close>,
  no multiple of the alignment lies between the two, and the cursor becomes
  \<open>(p - data) + n\<close>, the position of \<open>p\<close> in the storage plus the size (in
  \<^verbatim>\<open>unsigned long\<close> arithmetic).
\<close>

theorem arena_alloc_aligned_address:
  fixes s :: "'a state_scheme"
  assumes "arena \<noteq> 0" and "mem s arena = Some a" and "0 < sint n"
    and "0 < sint alignment" and "alignment AND (alignment - 1) = 0"
    and "arena_alloc_aligned arena n alignment s = Some (p, s')" and "p \<noteq> 0"
  shows "nat (sint alignment) dvd unat p
       \<and> unat (data a + pos a) \<le> unat p
       \<and> (\<forall>m. unat (data a + pos a) \<le> m \<and> nat (sint alignment) dvd m \<longrightarrow> unat p \<le> m)
       \<and> mem s' arena = Some (a\<lparr>pos := (p - data a) + scast n, error := Some ''no error''\<rparr>)"
proof -
  let ?A = "nat (sint alignment)"
  let ?off = "aligned_offset (data a + pos a) alignment"
  have A0: "0 < ?A" using assms(4) by simp
  have ok: "\<not> capacity a < pos a + ?off + scast n"
    and p: "p = data a + (pos a + ?off)"
    and s': "s' = s\<lparr>mem := (mem s)(arena \<mapsto> a\<lparr>pos := pos a + ?off + scast n,
                                                   error := Some ''no error''\<rparr>)\<rparr>"
    using assms(6,7) by (auto simp: arena_alloc_aligned_live [OF assms(1-5)] split: if_splits)
  have p': "p = (data a + pos a) + ?off" using p by simp
  have d: "?A dvd unat p" by (rule aligned_address(1) [OF assms(4,5) p'])
  have u: "unat p = unat (data a + pos a) + unat ?off"
    by (rule aligned_address(2) [OF assms(4,5) p' assms(7)])
  have pad: "unat ?off = (?A - unat (data a + pos a) mod ?A) mod ?A"
    by (rule unat_aligned_offset [OF assms(4)])
  have least: "unat p \<le> m" if "unat (data a + pos a) \<le> m" "?A dvd m" for m
    using align_up_least [OF A0 that] u pad by simp
  have "p - data a = pos a + ?off" using p by simp
  then have "mem s' arena = Some (a\<lparr>pos := (p - data a) + scast n, error := Some ''no error''\<rparr>)"
    using s' by simp
  then show ?thesis using d u least by auto
qed

theorem arena_alloc_aligned_address_witness:
  "arena_alloc_aligned 4096 4 8
     \<lparr>mem = [4096 \<mapsto> \<lparr>data = 8195, capacity = 16, pos = 1, error = Some ''no error''\<rparr>],
      arena_error_global = Some ''no error''\<rparr>
   = Some (8200,
     \<lparr>mem = [4096 \<mapsto> \<lparr>data = 8195, capacity = 16, pos = 9, error = Some ''no error''\<rparr>],
      arena_error_global = Some ''no error''\<rparr>)
   \<and> nat (sint (8 :: cint)) dvd unat (8200 :: ulong)
   \<and> unat (8195 + 1 :: ulong) \<le> unat (8200 :: ulong)
   \<and> mem \<lparr>mem = [4096 \<mapsto> \<lparr>data = 8195, capacity = 16, pos = 9, error = Some ''no error''\<rparr>],
           arena_error_global = Some ''no error''\<rparr> 4096
     = Some (\<lparr>data = 8195, capacity = 16, pos = 1, error = Some ''no error''\<rparr>
               \<lparr>pos := (8200 - 8195) + scast (4 :: cint), error := Some ''no error''\<rparr>)"
proof -
  have h: "arena_alloc_aligned 4096 4 8
     \<lparr>mem = [4096 \<mapsto> \<lparr>data = 8195, capacity = 16, pos = 1, error = Some ''no error''\<rparr>],
      arena_error_global = Some ''no error''\<rparr>
   = Some (8200,
     \<lparr>mem = [4096 \<mapsto> \<lparr>data = 8195, capacity = 16, pos = 9, error = Some ''no error''\<rparr>],
      arena_error_global = Some ''no error''\<rparr>)"
    by (simp add: arena_alloc_aligned_def)
  show ?thesis
    using h arena_alloc_aligned_address [of 4096
      "\<lparr>mem = [4096 \<mapsto> \<lparr>data = 8195, capacity = 16, pos = 1, error = Some ''no error''\<rparr>],
        arena_error_global = Some ''no error''\<rparr>"
      "\<lparr>data = 8195, capacity = 16, pos = 1, error = Some ''no error''\<rparr>" 4 8 8200
      "\<lparr>mem = [4096 \<mapsto> \<lparr>data = 8195, capacity = 16, pos = 9, error = Some ''no error''\<rparr>],
        arena_error_global = Some ''no error''\<rparr>"]
    by simp
qed

lemma unat_aligned_sum:
  fixes a :: arena_t and n alignment :: cint
  assumes "0 < sint n" and "0 < sint alignment"
  shows "unat (pos a + aligned_offset (data a + pos a) alignment + scast n)
         = (unat (pos a)
            + (nat (sint alignment) - unat (data a + pos a) mod nat (sint alignment))
                mod nat (sint alignment)
            + nat (sint n)) mod 2 ^ 64"
proof -
  have "unat (pos a + aligned_offset (data a + pos a) alignment + scast n)
        = (unat (pos a + aligned_offset (data a + pos a) alignment) + nat (sint n)) mod 2 ^ 64"
    by (rule unat_add_size [OF assms(1)])
  also have "unat (pos a + aligned_offset (data a + pos a) alignment)
        = (unat (pos a) + unat (aligned_offset (data a + pos a) alignment)) mod 2 ^ 64"
    by (simp add: unat_word_ariths)
  finally show ?thesis
    by (simp only: unat_aligned_offset [OF assms(2)] mod_add_left_eq)
qed

lemma arena_alloc_aligned_failed:
  fixes s :: "'a state_scheme"
  assumes "arena \<noteq> 0" and "mem s arena = Some a"
    and "arena_alloc_aligned arena n alignment s = Some (p, s')"
  shows "\<exists>a'. mem s' arena = Some a'
           \<and> (error a' \<noteq> Some ''no error'' \<longrightarrow> p = 0 \<and> a' = a\<lparr>error := error a'\<rparr>)"
  using assms
  by (auto simp: arena_alloc_aligned_def Let_def split: if_splits)

text \<open>Nor does the sum of \<^verbatim>\<open>arena_alloc_aligned\<close>: cursor, padding and size.\<close>

lemma live_aligned_sum_fits:
  fixes n alignment :: cint
  assumes "live_arena a"
  shows "unat (pos a)
           + (nat (sint alignment) - unat (data a + pos a) mod nat (sint alignment))
               mod nat (sint alignment)
           + nat (sint n) < 2 ^ 64"
proof -
  let ?A = "nat (sint alignment)"
  have "unat (pos a) \<le> unat (capacity a)" using assms by (simp add: live_arena_def word_le_nat_alt)
  moreover have "unat (capacity a) \<le> 2 ^ 64 - 2 ^ 32" using assms by (simp add: live_arena_def)
  moreover have "nat (sint n) < 2 ^ 31" by (rule int_size_bound)
  moreover have "(?A - unat (data a + pos a) mod ?A) mod ?A < 2 ^ 31"
  proof (cases "?A = 0")
    case True
    then show ?thesis by simp
  next
    case False
    then have "(?A - unat (data a + pos a) mod ?A) mod ?A < ?A" by simp
    then show ?thesis using int_size_bound [of alignment] by simp
  qed
  ultimately show ?thesis by simp
qed

text \<open>
  C6. Write \<open>pos'\<close> for \<open>pos\<close> plus the padding up to the next multiple of the alignment.
  For a live arena, a size \<open>n > 0\<close> and a power-of-two alignment, if \<open>pos' + n\<close> exceeds the
  capacity then \<^verbatim>\<open>arena_alloc_aligned\<close> returns null and changes nothing but the error,
  which becomes "arena overflow (aligned)". And whatever the arguments, a call that ends
  with an error recorded on the arena returns null and leaves \<open>pos\<close> (and \<open>data\<close> and
  \<open>capacity\<close>) exactly as they were: the padding is never committed.
\<close>

theorem arena_alloc_aligned_failure_atomic:
  fixes s :: "'a state_scheme"
  assumes "arena \<noteq> 0" and "mem s arena = Some a" and "live_arena a"
  shows "(0 < sint n \<and> 0 < sint alignment \<and> alignment AND (alignment - 1) = 0
          \<and> unat (capacity a)
              < unat (pos a)
                + (nat (sint alignment) - unat (data a + pos a) mod nat (sint alignment))
                    mod nat (sint alignment)
                + nat (sint n) \<longrightarrow>
            arena_alloc_aligned arena n alignment s =
              Some (0, s\<lparr>mem := (mem s)(arena \<mapsto>
                            a\<lparr>error := Some ''arena overflow (aligned)''\<rparr>)\<rparr>))
       \<and> (arena_alloc_aligned arena n alignment s = Some (p, s') \<longrightarrow>
            (\<exists>a'. mem s' arena = Some a'
               \<and> (error a' \<noteq> Some ''no error'' \<longrightarrow> p = 0 \<and> a' = a\<lparr>error := error a'\<rparr>)))"
proof (intro conjI impI)
  assume h: "0 < sint n \<and> 0 < sint alignment \<and> alignment AND (alignment - 1) = 0
          \<and> unat (capacity a)
              < unat (pos a)
                + (nat (sint alignment) - unat (data a + pos a) mod nat (sint alignment))
                    mod nat (sint alignment)
                + nat (sint n)"
  then have n: "0 < sint n" and al: "0 < sint alignment" "alignment AND (alignment - 1) = 0"
    by simp_all
  have "capacity a < pos a + aligned_offset (data a + pos a) alignment + scast n"
    using h live_aligned_sum_fits [OF assms(3), of alignment n]
    by (simp only: word_less_nat_alt unat_aligned_sum [OF n al(1)]) simp
  then show "arena_alloc_aligned arena n alignment s =
              Some (0, s\<lparr>mem := (mem s)(arena \<mapsto>
                            a\<lparr>error := Some ''arena overflow (aligned)''\<rparr>)\<rparr>)"
    by (simp add: arena_alloc_aligned_live [OF assms(1,2) n al])
next
  assume "arena_alloc_aligned arena n alignment s = Some (p, s')"
  then show "\<exists>a'. mem s' arena = Some a'
               \<and> (error a' \<noteq> Some ''no error'' \<longrightarrow> p = 0 \<and> a' = a\<lparr>error := error a'\<rparr>)"
    by (rule arena_alloc_aligned_failed [OF assms(1,2)])
qed

theorem arena_alloc_aligned_failure_atomic_witness:
  "live_arena \<lparr>data = 8192, capacity = 16, pos = 1, error = Some ''no error''\<rparr>
   \<and> arena_alloc_aligned 4096 12 8
     \<lparr>mem = [4096 \<mapsto> \<lparr>data = 8192, capacity = 16, pos = 1, error = Some ''no error''\<rparr>],
      arena_error_global = Some ''no error''\<rparr>
   = Some (0,
     \<lparr>mem = [4096 \<mapsto> \<lparr>data = 8192, capacity = 16, pos = 1,
                       error = Some ''arena overflow (aligned)''\<rparr>],
      arena_error_global = Some ''no error''\<rparr>)"
proof -
  have l: "live_arena \<lparr>data = 8192, capacity = 16, pos = 1, error = Some ''no error''\<rparr>"
    by (simp add: live_arena_def)
  show ?thesis
    using l arena_alloc_aligned_failure_atomic [of 4096
      "\<lparr>mem = [4096 \<mapsto> \<lparr>data = 8192, capacity = 16, pos = 1, error = Some ''no error''\<rparr>],
        arena_error_global = Some ''no error''\<rparr>"
      "\<lparr>data = 8192, capacity = 16, pos = 1, error = Some ''no error''\<rparr>" 12 8]
    by simp
qed

section \<open>The cursor stays within the capacity\<close>

text \<open>
  Every call keeps the cursor of every arena within its capacity, keeps live arenas live,
  and only \<^verbatim>\<open>arena_reset\<close> takes the cursor of a live arena down. Every arena of a client
  of the \<^verbatim>\<open>ARENA_NOALLOC\<close> build is live when the static array has at most
  \<open>2 ^ 64 - 2 ^ 32\<close> bytes, and so is every arena of a client of the default build whose
  allocator does what \<open>allocator_ok\<close> says.
\<close>

lemma exec_preserves:
  fixes s :: "'a state_scheme"
  assumes "exec c s = Some s'" and "mem s arena = Some a" and "pos a \<le> capacity a"
  shows "\<exists>a'. mem s' arena = Some a' \<and> pos a' \<le> capacity a'
              \<and> capacity a' = capacity a \<and> data a' = data a"
  using assms
  by (cases c)
     (auto simp: arena_alloc_def arena_alloc_aligned_def arena_reset_def Let_def not_less
           split: if_splits option.splits)

lemma exec_bounded:
  fixes s :: "'a state_scheme"
  assumes "exec c s = Some s'" and "\<And>q b. mem s q = Some b \<Longrightarrow> pos b \<le> capacity b"
    and "mem s' arena = Some a'"
  shows "pos a' \<le> capacity a'"
proof -
  have "arena \<in> dom (mem s')" using assms(3) by blast
  then have "arena \<in> dom (mem s)" using exec_dom [OF assms(1)] by simp
  then obtain a where a: "mem s arena = Some a" by blast
  show ?thesis using exec_preserves [OF assms(1) a assms(2) [OF a]] assms(3) by auto
qed

lemma exec_dyn_bounded:
  assumes "exec_dyn c s = Some s'" and "\<And>q b. mem s q = Some b \<Longrightarrow> pos b \<le> capacity b"
    and "mem s' arena = Some a'"
  shows "pos a' \<le> capacity a'"
proof (cases c)
  case (Init m_arena m_data n)
  then show ?thesis using assms
    by (auto simp: arena_init_def split: if_splits)
next
  case (Destroy q)
  then show ?thesis using assms
    by (auto simp: arena_destroy_def split: if_splits option.splits)
next
  case (Call c')
  then show ?thesis using assms exec_bounded [of c' s s' arena a'] by simp
qed

lemma run_dyn_bounded:
  assumes "run_dyn cs s = Some s'" and "\<And>q b. mem s q = Some b \<Longrightarrow> pos b \<le> capacity b"
    and "mem s' arena = Some a'"
  shows "pos a' \<le> capacity a'"
  using assms
proof (induction cs arbitrary: s)
  case Nil
  then show ?case by simp
next
  case (Cons c cs)
  from Cons.prems(1) obtain t where t: "exec_dyn c s = Some t" and r: "run_dyn cs t = Some s'"
    by (auto split: option.splits)
  have "pos b \<le> capacity b" if "mem t q = Some b" for q b
    using exec_dyn_bounded [OF t Cons.prems(2) that] .
  then show ?case using Cons.IH [OF r _ Cons.prems(3)] by blast
qed

lemma exec_noalloc_bounded:
  assumes "exec_noalloc st c s = Some s'"
    and "\<And>q b. mem s q = Some b \<Longrightarrow> pos b \<le> capacity b"
    and "mem s' arena = Some a'"
  shows "pos a' \<le> capacity a'"
proof (cases c)
  case Init_noalloc
  then show ?thesis using assms
    by (auto simp: arena_init_noalloc_def split: if_splits option.splits)
next
  case (Call_noalloc c')
  then show ?thesis using assms exec_bounded [of c' s s' arena a'] by simp
qed

lemma run_noalloc_bounded:
  assumes "run_noalloc st cs s = Some s'"
    and "\<And>q b. mem s q = Some b \<Longrightarrow> pos b \<le> capacity b"
    and "mem s' arena = Some a'"
  shows "pos a' \<le> capacity a'"
  using assms
proof (induction cs arbitrary: s)
  case Nil
  then show ?case by simp
next
  case (Cons c cs)
  from Cons.prems(1) obtain t where t: "exec_noalloc st c s = Some t"
    and r: "run_noalloc st cs t = Some s'"
    by (auto split: option.splits)
  have "pos b \<le> capacity b" if "mem t q = Some b" for q b
    using exec_noalloc_bounded [OF t Cons.prems(2) that] .
  then show ?case using Cons.IH [OF r _ Cons.prems(3)] by blast
qed

lemma arena_alloc_monotone:
  fixes s :: "'a state_scheme"
  assumes "mem s arena = Some a" and "arena_alloc q n s = Some (p, s')"
    and "unat (pos a) + nat (sint n) < 2 ^ 64"
  shows "\<exists>a'. mem s' arena = Some a' \<and> pos a \<le> pos a'"
proof (cases "q = arena \<and> q \<noteq> 0 \<and> 0 < sint n")
  case True
  then have "unat (pos a + scast n) = unat (pos a) + nat (sint n)"
    using assms(3) by (simp add: unat_add_size)
  then have "pos a \<le> pos a + scast n" by (simp add: word_le_nat_alt)
  then show ?thesis using True assms(1,2)
    by (auto simp: arena_alloc_def split: if_splits)
next
  case False
  then show ?thesis using assms(1,2)
    by (auto simp: arena_alloc_def split: if_splits option.splits)
qed

lemma arena_alloc_aligned_monotone:
  fixes s :: "'a state_scheme"
  assumes "mem s arena = Some a" and "arena_alloc_aligned q n alignment s = Some (p, s')"
    and "unat (pos a)
           + (nat (sint alignment) - unat (data a + pos a) mod nat (sint alignment))
               mod nat (sint alignment)
           + nat (sint n) < 2 ^ 64"
  shows "\<exists>a'. mem s' arena = Some a' \<and> pos a \<le> pos a'"
proof (cases "q = arena \<and> q \<noteq> 0 \<and> 0 < sint n \<and> 0 < sint alignment
               \<and> alignment AND (alignment - 1) = 0")
  case True
  then have "unat (pos a + aligned_offset (data a + pos a) alignment + scast n)
      = unat (pos a)
           + (nat (sint alignment) - unat (data a + pos a) mod nat (sint alignment))
               mod nat (sint alignment)
           + nat (sint n)"
    using assms(3) by (simp add: unat_aligned_sum)
  then have "pos a \<le> pos a + aligned_offset (data a + pos a) alignment + scast n"
    by (simp add: word_le_nat_alt)
  then show ?thesis using True assms(1,2)
    by (auto simp: arena_alloc_aligned_live split: if_splits)
next
  case False
  then show ?thesis using assms(1,2)
    by (auto simp: arena_alloc_aligned_def Let_def split: if_splits option.splits)
qed

lemma exec_live:
  fixes s :: "'a state_scheme"
  assumes "exec c s = Some s'" and "mem s arena = Some a" and "live_arena a"
  shows "\<exists>a'. mem s' arena = Some a' \<and> live_arena a' \<and> capacity a' = capacity a
              \<and> data a' = data a \<and> ((\<forall>q. c \<noteq> Reset q) \<longrightarrow> pos a \<le> pos a')"
proof -
  have le: "pos a \<le> capacity a" using assms(3) by (simp add: live_arena_def)
  obtain a' where a': "mem s' arena = Some a'" "pos a' \<le> capacity a'"
    "capacity a' = capacity a" "data a' = data a"
    using exec_preserves [OF assms(1,2) le] by blast
  have l: "live_arena a'" using a'(2,3) assms(3) by (simp add: live_arena_def)
  have "pos a \<le> pos a'" if "\<forall>q. c \<noteq> Reset q"
  proof (cases c)
    case (Alloc q n)
    then obtain p where "arena_alloc q n s = Some (p, s')" using assms(1) by auto
    then show ?thesis
      using arena_alloc_monotone [OF assms(2) _ live_sum_fits [OF assms(3)]] a'(1) by fastforce
  next
    case (Alloc_aligned q n alignment)
    then obtain p where "arena_alloc_aligned q n alignment s = Some (p, s')"
      using assms(1) by auto
    then show ?thesis
      using arena_alloc_aligned_monotone [OF assms(2) _ live_aligned_sum_fits [OF assms(3)]] a'(1)
      by fastforce
  next
    case (Reset q)
    then show ?thesis using that by simp
  next
    case (Error q)
    then have "s' = s" using assms(1) by auto
    then show ?thesis using a'(1) assms(2) by simp
  next
    case (Used q)
    then have "s' = s" using assms(1) by auto
    then show ?thesis using a'(1) assms(2) by simp
  next
    case (Capacity q)
    then have "s' = s" using assms(1) by auto
    then show ?thesis using a'(1) assms(2) by simp
  qed
  then show ?thesis using a' l by blast
qed

lemma exec_dyn_live:
  assumes "allocator_ok c s" and "exec_dyn c s = Some s'" and "mem s arena = Some a"
    and "live_arena a" and "mem s' arena = Some a'"
  shows "live_arena a' \<and> capacity a' = capacity a \<and> data a' = data a
       \<and> ((\<forall>q. c \<noteq> Call (Reset q)) \<longrightarrow> pos a \<le> pos a')"
proof (cases c)
  case (Init m_arena m_data n)
  then have "m_arena \<noteq> arena \<or> m_arena = 0" using assms(1,3) by auto
  then have "mem s' arena = mem s arena"
    using Init assms(2) by (auto simp: arena_init_def split: if_splits)
  then show ?thesis using assms(3,4,5) by simp
next
  case (Destroy q)
  then have "mem s' arena = mem s arena"
    using assms(2,5) by (auto simp: arena_destroy_def split: if_splits option.splits)
  then show ?thesis using assms(3,4,5) by simp
next
  case (Call c')
  then show ?thesis using assms exec_live [of c' s s' arena a] by auto
qed

lemma exec_dyn_all_live:
  assumes "allocator_ok c s" and "exec_dyn c s = Some s'"
    and "\<And>q b. mem s q = Some b \<Longrightarrow> live_arena b" and "mem s' arena = Some a'"
  shows "live_arena a'"
proof (cases c)
  case (Init m_arena m_data n)
  show ?thesis
  proof (cases "m_arena \<noteq> 0 \<and> m_data \<noteq> 0 \<and> arena = m_arena")
    case True
    then have n: "0 \<le> sint n" using Init assms(1) by auto
    have "a' = \<lparr>data = m_data, capacity = scast n, pos = 0, error = Some ''no error''\<rparr>"
      using True Init assms(2,4) by (auto simp: arena_init_def)
    moreover have "unat (scast n :: ulong) < 2 ^ 31"
      using int_size_bound [of n] by (simp add: unat_scast_int [OF n])
    ultimately show ?thesis by (simp add: live_arena_def)
  next
    case False
    then have "mem s arena = Some a'"
      using Init assms(2,4) by (auto simp: arena_init_def split: if_splits)
    then show ?thesis by (rule assms(3))
  qed
next
  case (Destroy q)
  then have "mem s arena = Some a'"
    using assms(2,4) by (auto simp: arena_destroy_def split: if_splits option.splits)
  then show ?thesis by (rule assms(3))
next
  case (Call c')
  then have e: "exec c' s = Some s'" using assms(2) by simp
  have "arena \<in> dom (mem s')" using assms(4) by blast
  then have "arena \<in> dom (mem s)" using exec_dom [OF e] by simp
  then obtain a where a: "mem s arena = Some a" by blast
  show ?thesis using exec_live [OF e a assms(3) [OF a]] assms(4) by auto
qed

lemma run_dyn_live:
  assumes "run_ok cs s" and "run_dyn cs s = Some s'"
    and "\<And>q b. mem s q = Some b \<Longrightarrow> live_arena b" and "mem s' arena = Some a'"
  shows "live_arena a'"
  using assms
proof (induction cs arbitrary: s)
  case Nil
  then show ?case by simp
next
  case (Cons c cs)
  from Cons.prems(2) obtain t where t: "exec_dyn c s = Some t" and r: "run_dyn cs t = Some s'"
    by (auto split: option.splits)
  have ok: "allocator_ok c s" and rk: "run_ok cs t" using Cons.prems(1) t by simp_all
  have "live_arena b" if "mem t q = Some b" for q b
    using exec_dyn_all_live [OF ok t Cons.prems(3) that] .
  then show ?case using Cons.IH [OF rk r _ Cons.prems(4)] by blast
qed

lemma exec_noalloc_live:
  assumes "arena_static_used s \<noteq> 0" and "exec_noalloc st c s = Some s'"
    and "mem s arena = Some a" and "live_arena a"
  shows "\<exists>a'. mem s' arena = Some a' \<and> live_arena a' \<and> capacity a' = capacity a
              \<and> data a' = data a
              \<and> ((\<forall>q. c \<noteq> Call_noalloc (Reset q)) \<longrightarrow> pos a \<le> pos a')"
proof (cases c)
  case Init_noalloc
  then show ?thesis using assms
    by (auto simp: arena_init_noalloc_def live_arena_def split: option.splits if_splits)
next
  case (Call_noalloc c')
  then show ?thesis using assms exec_live [of c' s s' arena a] by auto
qed

lemma exec_noalloc_all_live:
  assumes "exec_noalloc st c s = Some s'"
    and "\<And>q b. mem s q = Some b \<Longrightarrow> live_arena b" and "mem s' arena = Some a'"
  shows "live_arena a'"
proof -
  have "arena \<in> dom (mem s')" using assms(3) by blast
  then have "arena \<in> dom (mem s)" using exec_noalloc_dom [OF assms(1)] by simp
  then obtain a where a: "mem s arena = Some a" by blast
  have l: "live_arena a" by (rule assms(2) [OF a])
  show ?thesis
  proof (cases c)
    case Init_noalloc
    then show ?thesis using assms(1,3) a l
      by (auto simp: arena_init_noalloc_def live_arena_def split: option.splits if_splits)
  next
    case (Call_noalloc c')
    then show ?thesis using assms(1,3) exec_live [of c' s s' arena a] a l by auto
  qed
qed

lemma run_noalloc_live:
  assumes "run_noalloc st cs s = Some s'"
    and "\<And>q b. mem s q = Some b \<Longrightarrow> live_arena b" and "mem s' arena = Some a'"
  shows "live_arena a'"
  using assms
proof (induction cs arbitrary: s)
  case Nil
  then show ?case by simp
next
  case (Cons c cs)
  from Cons.prems(1) obtain t where t: "exec_noalloc st c s = Some t"
    and r: "run_noalloc st cs t = Some s'"
    by (auto split: option.splits)
  have "live_arena b" if "mem t q = Some b" for q b
    using exec_noalloc_all_live [OF t Cons.prems(2) that] .
  then show ?case using Cons.IH [OF r _ Cons.prems(3)] by blast
qed

text \<open>
  C7. \<open>pos \<le> capacity\<close> holds for every arena in every state that a client of either
  build reaches from the initial state, and these arenas are live. Every call made on a
  state with a live arena (after the construction, in the \<^verbatim>\<open>ARENA_NOALLOC\<close> build) leaves
  the arena, if it still exists, with \<open>pos \<le> capacity\<close> and with the capacity it had, and
  no call but \<^verbatim>\<open>arena_reset\<close> decreases \<open>pos\<close>.
\<close>

theorem arena_offset_invariant:
  shows "(run_dyn cs initial = Some s \<and> mem s arena = Some a \<longrightarrow>
            pos a \<le> capacity a \<and> (run_ok cs initial \<longrightarrow> live_arena a))
       \<and> (run_noalloc st cs' (noalloc_initial st sd sz) = Some t \<and> mem t arena = Some b \<longrightarrow>
            pos b \<le> capacity b \<and> (unat sz \<le> 2 ^ 64 - 2 ^ 32 \<longrightarrow> live_arena b))
       \<and> (allocator_ok c u \<and> exec_dyn c u = Some u' \<and> mem u arena = Some a0 \<and> live_arena a0
            \<and> mem u' arena = Some a1 \<longrightarrow>
            pos a1 \<le> capacity a1 \<and> capacity a1 = capacity a0
            \<and> ((\<forall>q. c \<noteq> Call (Reset q)) \<longrightarrow> pos a0 \<le> pos a1))
       \<and> (arena_static_used v \<noteq> 0 \<and> exec_noalloc st c' v = Some v' \<and> mem v arena = Some b0
            \<and> live_arena b0 \<longrightarrow>
            (\<exists>b1. mem v' arena = Some b1 \<and> pos b1 \<le> capacity b1 \<and> capacity b1 = capacity b0
                  \<and> ((\<forall>q. c' \<noteq> Call_noalloc (Reset q)) \<longrightarrow> pos b0 \<le> pos b1)))"
proof (intro conjI impI)
  assume h: "run_dyn cs initial = Some s \<and> mem s arena = Some a"
  have "pos x \<le> capacity x" if "mem initial q = Some x" for q x
    using that by (simp add: initial_def)
  then show "pos a \<le> capacity a"
    using h run_dyn_bounded [of cs initial s arena a] by blast
  assume ok: "run_ok cs initial"
  have "live_arena x" if "mem initial q = Some x" for q x
    using that by (simp add: initial_def)
  then show "live_arena a"
    using h ok run_dyn_live [of cs initial s arena a] by blast
next
  assume h: "run_noalloc st cs' (noalloc_initial st sd sz) = Some t \<and> mem t arena = Some b"
  have "pos x \<le> capacity x" if "mem (noalloc_initial st sd sz) q = Some x" for q x
    using that by (auto simp: noalloc_initial_def split: if_splits)
  then show "pos b \<le> capacity b"
    using h run_noalloc_bounded [of st cs' "noalloc_initial st sd sz" t arena b] by blast
  assume sz: "unat sz \<le> 2 ^ 64 - 2 ^ 32"
  have "live_arena x" if "mem (noalloc_initial st sd sz) q = Some x" for q x
    using that sz by (auto simp: noalloc_initial_def live_arena_def split: if_splits)
  then show "live_arena b"
    using h run_noalloc_live [of st cs' "noalloc_initial st sd sz" t arena b] by blast
next
  assume h: "allocator_ok c u \<and> exec_dyn c u = Some u' \<and> mem u arena = Some a0 \<and> live_arena a0
            \<and> mem u' arena = Some a1"
  then have r: "live_arena a1 \<and> capacity a1 = capacity a0 \<and> data a1 = data a0
       \<and> ((\<forall>q. c \<noteq> Call (Reset q)) \<longrightarrow> pos a0 \<le> pos a1)"
    using exec_dyn_live [of c u u' arena a0 a1] by blast
  show "pos a1 \<le> capacity a1" using r by (auto simp: live_arena_def)
  show "capacity a1 = capacity a0" using r by simp
  assume "\<forall>q. c \<noteq> Call (Reset q)"
  then show "pos a0 \<le> pos a1" using r by simp
next
  assume h: "arena_static_used v \<noteq> 0 \<and> exec_noalloc st c' v = Some v' \<and> mem v arena = Some b0
            \<and> live_arena b0"
  then obtain b1 where "mem v' arena = Some b1" "live_arena b1" "capacity b1 = capacity b0"
    "(\<forall>q. c' \<noteq> Call_noalloc (Reset q)) \<longrightarrow> pos b0 \<le> pos b1"
    using exec_noalloc_live [of v st c' v' arena b0] by blast
  then show "\<exists>b1. mem v' arena = Some b1 \<and> pos b1 \<le> capacity b1 \<and> capacity b1 = capacity b0
                  \<and> ((\<forall>q. c' \<noteq> Call_noalloc (Reset q)) \<longrightarrow> pos b0 \<le> pos b1)"
    by (auto simp: live_arena_def)
qed

theorem arena_offset_invariant_witness:
  "run_ok [Init 4096 8192 100, Call (Alloc 4096 60)] initial
   \<and> run_dyn [Init 4096 8192 100, Call (Alloc 4096 60)] initial = Some (example_state 60)
   \<and> live_arena (example_arena 60)
   \<and> run_noalloc 4096 [Init_noalloc, Call_noalloc (Alloc 4096 128)]
         (noalloc_initial 4096 8192 1024)
       = Some \<lparr>mem = [4096 \<mapsto> \<lparr>data = 8192, capacity = 1024, pos = 128,
                                 error = Some ''no error''\<rparr>],
               arena_error_global = Some ''no error'', arena_static_used = 1\<rparr>
   \<and> live_arena \<lparr>data = 8192, capacity = 1024, pos = 128, error = Some ''no error''\<rparr>
   \<and> exec_dyn (Call (Alloc_aligned 4096 30 8)) (example_state 60) = Some (example_state 94)
   \<and> pos (example_arena 94) \<le> capacity (example_arena 94)
   \<and> capacity (example_arena 94) = capacity (example_arena 60)
   \<and> pos (example_arena 60) \<le> pos (example_arena 94)
   \<and> exec_noalloc 4096 (Call_noalloc (Alloc 4096 30))
        \<lparr>mem = [4096 \<mapsto> \<lparr>data = 8192, capacity = 1024, pos = 128,
                                 error = Some ''no error''\<rparr>],
               arena_error_global = Some ''no error'', arena_static_used = 1\<rparr>
       = Some \<lparr>mem = [4096 \<mapsto> \<lparr>data = 8192, capacity = 1024, pos = 158,
                                 error = Some ''no error''\<rparr>],
               arena_error_global = Some ''no error'', arena_static_used = 1\<rparr>"
proof -
  let ?t = "\<lparr>mem = [4096 \<mapsto> \<lparr>data = 8192, capacity = 1024, pos = 128,
                                 error = Some ''no error''\<rparr>],
               arena_error_global = Some ''no error'', arena_static_used = 1\<rparr>"
  let ?b = "\<lparr>data = 8192, capacity = 1024, pos = 128, error = Some ''no error''\<rparr>"
  let ?t' = "\<lparr>mem = [4096 \<mapsto> \<lparr>data = 8192, capacity = 1024, pos = 158,
                                 error = Some ''no error''\<rparr>],
               arena_error_global = Some ''no error'', arena_static_used = 1\<rparr>"
  have h0: "run_ok [Init 4096 8192 100, Call (Alloc 4096 60)] initial"
    by (simp add: arena_init_def arena_alloc_def initial_def)
  have h1: "run_dyn [Init 4096 8192 100, Call (Alloc 4096 60)] initial = Some (example_state 60)"
    by (simp add: arena_init_def arena_alloc_def initial_def example_state_def example_arena_def)
  have h2: "run_noalloc 4096 [Init_noalloc, Call_noalloc (Alloc 4096 128)]
         (noalloc_initial 4096 8192 1024) = Some ?t"
    by (simp add: arena_init_noalloc_def arena_alloc_def noalloc_initial_def)
  have h3: "exec_dyn (Call (Alloc_aligned 4096 30 8)) (example_state 60) = Some (example_state 94)"
    by (simp add: arena_alloc_aligned_def example_state_def example_arena_def)
  have h4: "exec_noalloc 4096 (Call_noalloc (Alloc 4096 30)) ?t = Some ?t'"
    by (simp add: arena_alloc_def)
  have m: "mem (example_state 60) 4096 = Some (example_arena 60)"
    "mem (example_state 94) 4096 = Some (example_arena 94)"
    by (simp_all add: example_state_def)
  have sz: "unat (1024 :: ulong) \<le> 2 ^ 64 - 2 ^ 32" by simp
  have k: "allocator_ok (Call (Alloc_aligned 4096 30 8)) (example_state 60)" by simp
  have nr: "\<forall>q. Call (Alloc_aligned 4096 30 8) \<noteq> Call (Reset q)" by simp
  have mt: "mem ?t 4096 = Some ?b" by simp
  have g: "arena_static_used ?t \<noteq> 0" by simp
  note T = arena_offset_invariant [where cs = "[Init 4096 8192 100, Call (Alloc 4096 60)]"
        and s = "example_state 60" and arena = 4096 and a = "example_arena 60"
        and st = 4096 and cs' = "[Init_noalloc, Call_noalloc (Alloc 4096 128)]"
        and sd = 8192 and sz = 1024 and t = ?t and b = ?b
        and c = "Call (Alloc_aligned 4096 30 8)" and u = "example_state 60"
        and u' = "example_state 94" and ?a0.0 = "example_arena 60"
        and ?a1.0 = "example_arena 94"
        and v = ?t and c' = "Call_noalloc (Alloc 4096 30)" and v' = ?t' and ?b0.0 = ?b]
  have l1: "live_arena (example_arena 60)" using T h0 h1 m(1) by blast
  have l2: "live_arena ?b" using T h2 mt sz by blast
  have r: "pos (example_arena 94) \<le> capacity (example_arena 94)
      \<and> capacity (example_arena 94) = capacity (example_arena 60)
      \<and> pos (example_arena 60) \<le> pos (example_arena 94)"
    using T k h3 m l1 nr by blast
  show ?thesis using h0 h1 h2 h3 h4 l1 l2 r by blast
qed

end
